theory Spec2Isabelle
  imports Main
begin

unbundle bit_operations_syntax

section \<open>PyChain: a proof-of-work ledger (pychain.py)\<close>

text \<open>
  The development follows \<^verbatim>\<open>pychain.py\<close>: the data classes \<^verbatim>\<open>Record\<close>,
  \<^verbatim>\<open>Block\<close> and \<^verbatim>\<open>PyChain\<close>, the methods \<^verbatim>\<open>hash_block\<close>, \<^verbatim>\<open>proof_of_work\<close>,
  \<^verbatim>\<open>add_block\<close> and \<^verbatim>\<open>is_valid\<close>, the cached \<^verbatim>\<open>setup\<close> and the "Add Block" handler.
  Python objects are mutable and shared by reference (\<^verbatim>\<open>proof_of_work\<close> increments
  \<^verbatim>\<open>block.nonce\<close> in place and \<^verbatim>\<open>add_block\<close> appends that same object), so blocks live
  in an object store and the chain is a list of references.

  Each method is given twice. The first definitions (\<open>hash_block\<close>, \<open>proof_of_work\<close>,
  \<open>add_block\<close>, \<open>is_valid\<close>) are what the method computes when none of its library
  calls raises. The definitions with the suffix \<open>_exn\<close> follow the same lines with the
  exceptions of those calls as results: \<^verbatim>\<open>str\<close> and \<^verbatim>\<open>repr\<close> of an integer of more than
  4300 digits raise \<^verbatim>\<open>ValueError\<close> (the default limit of CPython 3.11), and
  \<^verbatim>\<open>'0' * n\<close> raises \<^verbatim>\<open>OverflowError\<close> for a count outside the 64-bit index range. The
  two agree wherever nothing raises (\<open>hash_block_exn_eq\<close>, \<open>proof_of_work_exn_Inr\<close>,
  \<open>is_valid_exn_printable\<close>).
\<close>

subsection \<open>hashlib.sha256\<close>

text \<open>
  \<^verbatim>\<open>hashlib.sha256\<close> is the SHA-256 function of FIPS 180-4. A hash object collects the
  bytes given to \<^verbatim>\<open>update\<close>; \<^verbatim>\<open>hexdigest\<close> pads them, runs the compression function over
  the 64-byte blocks and prints the eight state words as 64 lower-case hex digits.
\<close>

type_synonym u32 = nat

text \<open>32-bit words are naturals below \<open>2 ^ 32\<close>, the wrap-around written out.\<close>

definition add32 :: "u32 \<Rightarrow> u32 \<Rightarrow> u32" where
  "add32 x y = (x + y) mod 2 ^ 32"

definition rotr :: "nat \<Rightarrow> u32 \<Rightarrow> u32" where
  "rotr n x = x div 2 ^ n + (x mod 2 ^ n) * 2 ^ (32 - n)"

definition shr :: "nat \<Rightarrow> u32 \<Rightarrow> u32" where
  "shr n x = x div 2 ^ n"

definition not32 :: "u32 \<Rightarrow> u32" where
  "not32 x = 0xffffffff - x"

definition Ch :: "u32 \<Rightarrow> u32 \<Rightarrow> u32 \<Rightarrow> u32" where
  "Ch x y z = (x AND y) XOR (not32 x AND z)"

definition Maj :: "u32 \<Rightarrow> u32 \<Rightarrow> u32 \<Rightarrow> u32" where
  "Maj x y z = (x AND y) XOR (x AND z) XOR (y AND z)"

definition Sigma0 :: "u32 \<Rightarrow> u32" where
  "Sigma0 x = rotr 2 x XOR rotr 13 x XOR rotr 22 x"

definition Sigma1 :: "u32 \<Rightarrow> u32" where
  "Sigma1 x = rotr 6 x XOR rotr 11 x XOR rotr 25 x"

definition sigma0 :: "u32 \<Rightarrow> u32" where
  "sigma0 x = rotr 7 x XOR rotr 18 x XOR shr 3 x"

definition sigma1 :: "u32 \<Rightarrow> u32" where
  "sigma1 x = rotr 17 x XOR rotr 19 x XOR shr 10 x"

text \<open>
  The round constants (the first 32 bits of the fractional parts of the cube roots of the
  first 64 primes, from \<open>0x428a2f98\<close> to \<open>0xc67178f2\<close>) and the initial state (the same
  of the square roots of the first 8 primes, from \<open>0x6a09e667\<close> to \<open>0x5be0cd19\<close>).
\<close>

definition K256 :: "u32 list" where
  "K256 =
    [1116352408, 1899447441, 3049323471, 3921009573, 961987163, 1508970993,
     2453635748, 2870763221, 3624381080, 310598401, 607225278, 1426881987,
     1925078388, 2162078206, 2614888103, 3248222580, 3835390401, 4022224774,
     264347078, 604807628, 770255983, 1249150122, 1555081692, 1996064986,
     2554220882, 2821834349, 2952996808, 3210313671, 3336571891, 3584528711,
     113926993, 338241895, 666307205, 773529912, 1294757372, 1396182291,
     1695183700, 1986661051, 2177026350, 2456956037, 2730485921, 2820302411,
     3259730800, 3345764771, 3516065817, 3600352804, 4094571909, 275423344,
     430227734, 506948616, 659060556, 883997877, 958139571, 1322822218,
     1537002063, 1747873779, 1955562222, 2024104815, 2227730452, 2361852424,
     2428436474, 2756734187, 3204031479, 3329325298]"

definition H256 :: "u32 list" where
  "H256 =
    [1779033703, 3144134277, 1013904242, 2773480762, 1359893119, 2600822924,
     528734635, 1541459225]"

text \<open>Message schedule, newest word first.\<close>
fun schedule :: "nat \<Rightarrow> u32 list \<Rightarrow> u32 list" where
  "schedule k ws =
     (if k = 0 then ws
      else schedule (k - 1)
             (add32 (add32 (add32 (sigma1 (ws ! 1)) (ws ! 6)) (sigma0 (ws ! 14))) (ws ! 15) # ws))"

declare schedule.simps [simp del]

fun round256 :: "u32 list \<Rightarrow> u32 \<times> u32 \<Rightarrow> u32 list" where
  "round256 [a, b, c, d, e, f, g, h] (k, w) =
     (let t1 = add32 (add32 (add32 (add32 h (Sigma1 e)) (Ch e f g)) k) w;
          t2 = add32 (Sigma0 a) (Maj a b c)
      in [add32 t1 t2, a, b, c, add32 d t1, e, f, g])"
| "round256 s _ = s"

definition compress :: "u32 list \<Rightarrow> u32 list \<Rightarrow> u32 list" where
  "compress hs ws16 =
     map2 add32 hs (foldl round256 hs (zip K256 (rev (schedule 48 (rev ws16)))))"

fun be32 :: "nat list \<Rightarrow> u32 list" where
  "be32 (a # b # c # d # r) = (((a * 256 + b) * 256 + c) * 256 + d) # be32 r"
| "be32 _ = []"

fun chunks :: "u32 list \<Rightarrow> u32 list list" where
  "chunks [] = []"
| "chunks ws = take 16 ws # chunks (drop 16 ws)"

definition be64 :: "nat \<Rightarrow> nat list" where
  "be64 n = map (\<lambda>i. (n div 256 ^ i) mod 256) [7, 6, 5, 4, 3, 2, 1, 0]"

definition pad :: "nat list \<Rightarrow> nat list" where
  "pad bs = bs @ [128] @ replicate ((119 - length bs mod 64) mod 64) 0 @ be64 (8 * length bs)"

definition hexdigit :: "nat \<Rightarrow> char" where
  "hexdigit n = ''0123456789abcdef'' ! n"

definition hex32 :: "u32 \<Rightarrow> string" where
  "hex32 w = map (\<lambda>i. hexdigit ((w div 16 ^ i) mod 16)) [7, 6, 5, 4, 3, 2, 1, 0]"

definition sha256_hexdigest :: "string \<Rightarrow> string" where
  "sha256_hexdigest s =
     concat (map hex32 (foldl compress H256 (chunks (be32 (pad (map of_char s))))))"

type_synonym sha256 = string

definition sha256_new :: sha256 where
  "sha256_new = []"

definition sha256_update :: "sha256 \<Rightarrow> string \<Rightarrow> sha256" where
  "sha256_update sha bs = sha @ bs"

subsection \<open>Textual forms: str and repr\<close>

text \<open>
  Strings are byte strings (a Python \<^verbatim>\<open>str\<close> of ASCII text and its \<^verbatim>\<open>encode()\<close> coincide).
  \<^verbatim>\<open>str\<close> of an \<^verbatim>\<open>int\<close> is its decimal numeral, with a minus sign when negative.
\<close>

definition digit :: "nat \<Rightarrow> char" where
  "digit n = ''0123456789'' ! (n mod 10)"

fun str_nat :: "nat \<Rightarrow> string" where
  "str_nat n = (if n < 10 then [digit n] else str_nat (n div 10) @ [digit n])"

declare str_nat.simps [simp del]

definition str_int :: "int \<Rightarrow> string" where
  "str_int i = (if i < 0 then CHR ''-'' # str_nat (nat (- i)) else str_nat (nat i))"

text \<open>
  \<^verbatim>\<open>repr\<close> of a \<^verbatim>\<open>str\<close>: single quotes, or double quotes when the text holds a single
  quote and no double quote; the quote and the backslash are escaped, tab, newline and
  carriage return are written \<^verbatim>\<open>\t\<close>, \<^verbatim>\<open>\n\<close>, \<^verbatim>\<open>\r\<close>, other control characters
  \<^verbatim>\<open>\xhh\<close>. This is \<^verbatim>\<open>repr\<close> on ASCII text. Bytes from 128 on are copied, as \<^verbatim>\<open>repr\<close>
  does with the UTF-8 of a printable character; a character that is not printable
  (U+00A0, say) is escaped by Python, and text with such characters is outside this
  definition. No statement below depends on the text of a record beyond its being a
  function of the record.
\<close>

definition repr_quote :: "string \<Rightarrow> char" where
  "repr_quote s = (if CHR 0x27 \<in> set s \<and> CHR 0x22 \<notin> set s then CHR 0x22 else CHR 0x27)"

definition repr_char :: "char \<Rightarrow> char \<Rightarrow> string" where
  "repr_char q c =
     (if c = q \<or> c = CHR 0x5C then [CHR 0x5C, c]
      else if c = CHR 0x09 then [CHR 0x5C, CHR ''t'']
      else if c = CHR 0x0A then [CHR 0x5C, CHR ''n'']
      else if c = CHR 0x0D then [CHR 0x5C, CHR ''r'']
      else if (of_char c :: nat) < 32 \<or> (of_char c :: nat) = 127
        then [CHR 0x5C, CHR ''x'', hexdigit (of_char c div 16), hexdigit (of_char c mod 16)]
      else [c])"

definition repr_str :: "string \<Rightarrow> string" where
  "repr_str s = (let q = repr_quote s in q # concat (map (repr_char q) s) @ [q])"

subsection \<open>Record and Block\<close>

text \<open>
  \<^verbatim>\<open>amount\<close> is annotated \<^verbatim>\<open>float\<close>, but a data class does not check annotations and the
  handler passes the text of the input field as it is; an integer amount is covered too.
\<close>

datatype py_value = PyStr string | PyInt int

fun py_repr :: "py_value \<Rightarrow> string" where
  "py_repr (PyStr s) = repr_str s"
| "py_repr (PyInt i) = str_int i"

record Record =
  sender :: string
  receiver :: string
  amount :: py_value

text \<open>The \<^verbatim>\<open>__repr__\<close> that \<^verbatim>\<open>@dataclass\<close> generates for \<^verbatim>\<open>Record\<close>.\<close>

definition repr_Record :: "Record \<Rightarrow> string" where
  "repr_Record r =
     ''Record(sender='' @ repr_str (sender r) @ '', receiver='' @ repr_str (receiver r)
       @ '', amount='' @ py_repr (amount r) @ '')''"

text \<open>
  The \<^verbatim>\<open>record\<close> attribute of a block holds a \<^verbatim>\<open>Record\<close>, except in the genesis block,
  where \<^verbatim>\<open>setup\<close> passes the string \<^verbatim>\<open>'Genesis'\<close>.
\<close>

datatype payload = Text string | Rec Record

fun str_payload :: "payload \<Rightarrow> string" where
  "str_payload (Text s) = s"
| "str_payload (Rec r) = repr_Record r"

record Block =
  record_val :: payload
  creator_id :: int
  prev_hash :: string
  timestamp :: string
  nonce :: int

text \<open>The bytes that \<^verbatim>\<open>hash_block\<close> gives to the hash object, in the order of its updates.\<close>

definition hash_input :: "Block \<Rightarrow> string" where
  "hash_input self =
     str_payload (record_val self) @ str_int (creator_id self) @ timestamp self
       @ prev_hash self @ str_int (nonce self)"

definition hash_block :: "Block \<Rightarrow> string" where
  "hash_block self =
     (let sha = sha256_new;
          sha = sha256_update sha (str_payload (record_val self));
          sha = sha256_update sha (str_int (creator_id self));
          sha = sha256_update sha (timestamp self);
          sha = sha256_update sha (prev_hash self);
          sha = sha256_update sha (str_int (nonce self))
      in sha256_hexdigest sha)"

text \<open>
  The default of \<^verbatim>\<open>timestamp\<close> is the expression
  \<^verbatim>\<open>datetime.datetime.utcnow().strftime('%H:%M:%S')\<close> in the class body: Python evaluates it
  once, when the \<^verbatim>\<open>class Block\<close> statement runs, and the generated \<^verbatim>\<open>__init__\<close> uses that
  value for every block built without a timestamp. The constructor below takes both
  clock readings: \<open>defined_at\<close>, when the class statement ran, and \<open>now\<close>, when the
  constructor is called.
\<close>

record clock =
  hour :: nat
  minute :: nat
  second :: nat

definition two_digits :: "nat \<Rightarrow> string" where
  "two_digits n = [digit (n div 10), digit n]"

definition strftime_HMS :: "clock \<Rightarrow> string" where
  "strftime_HMS t = two_digits (hour t) @ '':'' @ two_digits (minute t) @ '':'' @ two_digits (second t)"

definition new_Block ::
  "clock \<Rightarrow> clock \<Rightarrow> payload \<Rightarrow> int \<Rightarrow> string option \<Rightarrow> string option \<Rightarrow> int option \<Rightarrow> Block" where
  "new_Block defined_at now r c p t n =
     \<lparr> record_val = r, creator_id = c,
       prev_hash = (case p of None \<Rightarrow> ''0'' | Some x \<Rightarrow> x),
       timestamp = (case t of None \<Rightarrow> strftime_HMS defined_at | Some x \<Rightarrow> x),
       nonce = (case n of None \<Rightarrow> 0 | Some x \<Rightarrow> x) \<rparr>"

subsection \<open>The object store and PyChain\<close>

text \<open>
  A reference is the address of a \<^verbatim>\<open>Block\<close> object; \<open>used\<close> is the next address the
  constructor hands out. \<open>chain\<close> and \<open>difficulty\<close> are the attributes of the one
  \<^verbatim>\<open>PyChain\<close> object of the session.
\<close>

type_synonym ref = nat

record world =
  chain :: "ref list"
  difficulty :: int
  heap :: "ref \<Rightarrow> Block"
  used :: nat

datatype py_error = IndexError | OverflowError | ValueError

definition alloc :: "Block \<Rightarrow> world \<Rightarrow> ref \<times> world" where
  "alloc b w = (used w, w\<lparr>heap := (heap w)(used w := b), used := Suc (used w)\<rparr>)"

definition startswith :: "string \<Rightarrow> string \<Rightarrow> bool" where
  "startswith s p \<longleftrightarrow> take (length p) s = p"

text \<open>
  The \<^verbatim>\<open>while\<close> loop of \<^verbatim>\<open>proof_of_work\<close>; \<open>None\<close> is a search that never ends.
  \<^verbatim>\<open>'0' * self.difficulty\<close> is the empty string when the difficulty is 0 or negative,
  which is what \<open>replicate (nat d)\<close> gives; a count that Python refuses, and a block that
  \<^verbatim>\<open>hash_block\<close> cannot print, are in \<open>proof_of_work_exn\<close> below. The \<^verbatim>\<open>print\<close> calls of
  the methods write to the terminal only and are left out.
\<close>

partial_function (option) pow_loop :: "string \<Rightarrow> ref \<Rightarrow> string \<Rightarrow> world \<Rightarrow> world option" where
  "pow_loop num_of_zeros block calculated_hash w =
     (if \<not> startswith calculated_hash num_of_zeros
      then (let w' = w\<lparr>heap := (heap w)(block := (heap w block)\<lparr>nonce := nonce (heap w block) + 1\<rparr>)\<rparr>
            in pow_loop num_of_zeros block (hash_block (heap w' block)) w')
      else Some w)"

definition proof_of_work :: "ref \<Rightarrow> world \<Rightarrow> (ref \<times> world) option" where
  "proof_of_work block w =
     (let calculated_hash = hash_block (heap w block);
          num_of_zeros = replicate (nat (difficulty w)) CHR ''0''
      in map_option (Pair block) (pow_loop num_of_zeros block calculated_hash w))"

definition add_block :: "ref \<Rightarrow> world \<Rightarrow> world option" where
  "add_block candidate_block w =
     (case proof_of_work candidate_block w of
        None \<Rightarrow> None
      | Some (block, w') \<Rightarrow> Some (w'\<lparr>chain := chain w' @ [block]\<rparr>))"

text \<open>
  The \<^verbatim>\<open>for\<close> loop of \<^verbatim>\<open>is_valid\<close> over \<^verbatim>\<open>self.chain[1:]\<close>. The first component is
  the value returned; the second is a ghost, the blocks the loop has taken from the list
  when it returns.
\<close>

fun is_valid_loop :: "world \<Rightarrow> string \<Rightarrow> ref list \<Rightarrow> bool \<times> ref list" where
  "is_valid_loop w block_hash [] = (True, [])"
| "is_valid_loop w block_hash (block # rest) =
     (if block_hash \<noteq> prev_hash (heap w block) then (False, [block])
      else (let (result, visited) = is_valid_loop w (hash_block (heap w block)) rest
            in (result, block # visited)))"

text \<open>\<^verbatim>\<open>self.chain[0]\<close> raises \<^verbatim>\<open>IndexError\<close> on an empty list.\<close>

definition is_valid :: "world \<Rightarrow> py_error + bool" where
  "is_valid w =
     (case chain w of
        [] \<Rightarrow> Inl IndexError
      | first # rest \<Rightarrow> Inr (fst (is_valid_loop w (hash_block (heap w first)) rest)))"


text \<open>\<^verbatim>\<open>setup\<close>: a new chain holding the genesis block, with the default difficulty 4.\<close>

definition setup_pychain :: "clock \<Rightarrow> clock \<Rightarrow> world \<Rightarrow> world" where
  "setup_pychain defined_at now w0 =
     (let (genesis, w) = alloc (new_Block defined_at now (Text ''Genesis'') 0 None None None) w0
      in w\<lparr>chain := [genesis], difficulty := 4\<rparr>)"

definition seed :: int where
  "seed = 42"

text \<open>
  The body of \<^verbatim>\<open>if st.button('Add Block')\<close>. \<^verbatim>\<open>pychain.chain[-1]\<close> raises
  \<^verbatim>\<open>IndexError\<close> on an empty list; \<open>None\<close> is a mining that never ends.
\<close>

definition add_block_button ::
  "clock \<Rightarrow> clock \<Rightarrow> string \<Rightarrow> string \<Rightarrow> string \<Rightarrow> world \<Rightarrow> (py_error + world) option" where
  "add_block_button defined_at now sender_data receiver_data amount_data w =
     (if chain w = [] then Some (Inl IndexError)
      else
        let prev_block = last (chain w);
            prev_block_hash = hash_block (heap w prev_block);
            (new_block, w1) =
              alloc (new_Block defined_at now
                       (Rec \<lparr>sender = sender_data, receiver = receiver_data,
                             amount = PyStr amount_data\<rparr>)
                       seed (Some prev_block_hash) None None) w
        in map_option Inr (add_block new_block w1))"

text \<open>\<^verbatim>\<open>pychain.difficulty = difficulty\<close>\<close>

definition set_difficulty :: "int \<Rightarrow> world \<Rightarrow> world" where
  "set_difficulty d w = w\<lparr>difficulty := d\<rparr>"

text \<open>The block at a position of the chain.\<close>

definition block_at :: "world \<Rightarrow> nat \<Rightarrow> Block" where
  "block_at w i = heap w (chain w ! i)"

text \<open>Two states of a block object that differ in the nonce at most.\<close>

definition same_but_nonce :: "Block \<Rightarrow> Block \<Rightarrow> bool" where
  "same_but_nonce a b \<longleftrightarrow>
     record_val a = record_val b \<and> creator_id a = creator_id b
     \<and> prev_hash a = prev_hash b \<and> timestamp a = timestamp b"

subsection \<open>Library calls that raise\<close>

text \<open>
  \<^verbatim>\<open>str(i)\<close> and \<^verbatim>\<open>repr(i)\<close> of an \<^verbatim>\<open>int\<close> raise \<^verbatim>\<open>ValueError\<close> when \<open>i\<close> has more than
  4300 decimal digits, that is from \<open>10 ^ 4300\<close> on in absolute value
  (\<^verbatim>\<open>sys.int_info.default_max_str_digits\<close>). Strings are byte strings, so a \<^verbatim>\<open>str\<close> that
  \<^verbatim>\<open>encode()\<close> refuses (a lone surrogate) has no value here.
\<close>

definition str_digits_limit :: int where
  "str_digits_limit = 10 ^ 4300"

definition str_int_exn :: "int \<Rightarrow> py_error + string" where
  "str_int_exn i = (if str_digits_limit \<le> \<bar>i\<bar> then Inl ValueError else Inr (str_int i))"

fun py_repr_exn :: "py_value \<Rightarrow> py_error + string" where
  "py_repr_exn (PyStr s) = Inr (repr_str s)"
| "py_repr_exn (PyInt i) = str_int_exn i"

definition repr_Record_exn :: "Record \<Rightarrow> py_error + string" where
  "repr_Record_exn r =
     (case py_repr_exn (amount r) of
        Inl e \<Rightarrow> Inl e
      | Inr a \<Rightarrow> Inr (''Record(sender='' @ repr_str (sender r) @ '', receiver=''
                   @ repr_str (receiver r) @ '', amount='' @ a @ '')''))"

fun str_payload_exn :: "payload \<Rightarrow> py_error + string" where
  "str_payload_exn (Text s) = Inr s"
| "str_payload_exn (Rec r) = repr_Record_exn r"

text \<open>\<^verbatim>\<open>hash_block\<close>, lines 70 to 93: the first call that raises ends the method.\<close>

definition hash_block_exn :: "Block \<Rightarrow> py_error + string" where
  "hash_block_exn self =
     (let sha = sha256_new in
      case str_payload_exn (record_val self) of
        Inl e \<Rightarrow> Inl e
      | Inr record \<Rightarrow>
          (let sha = sha256_update sha record in
           case str_int_exn (creator_id self) of
             Inl e \<Rightarrow> Inl e
           | Inr creator \<Rightarrow>
               (let sha = sha256_update sha creator;
                    sha = sha256_update sha (timestamp self);
                    sha = sha256_update sha (prev_hash self) in
                case str_int_exn (nonce self) of
                  Inl e \<Rightarrow> Inl e
                | Inr nonce_text \<Rightarrow>
                    Inr (sha256_hexdigest (sha256_update sha nonce_text)))))"

text \<open>The blocks whose five fields \<^verbatim>\<open>str\<close> prints.\<close>

definition printable_int :: "int \<Rightarrow> bool" where
  "printable_int i \<longleftrightarrow> \<bar>i\<bar> < str_digits_limit"

fun printable_payload :: "payload \<Rightarrow> bool" where
  "printable_payload (Text s) = True"
| "printable_payload (Rec r) = (case amount r of PyStr s \<Rightarrow> True | PyInt i \<Rightarrow> printable_int i)"

definition printable :: "Block \<Rightarrow> bool" where
  "printable b \<longleftrightarrow>
     printable_payload (record_val b) \<and> printable_int (creator_id b) \<and> printable_int (nonce b)"

text \<open>
  \<^verbatim>\<open>c * n\<close> for a one-character string: the count is converted to a 64-bit index, and
  \<^verbatim>\<open>OverflowError\<close> is raised when it does not fit; a count of 0 or below gives the empty
  string. (A count that fits and is too large for the memory of the machine raises
  \<^verbatim>\<open>MemoryError\<close>; no statement below is about a count above 65.)
\<close>

definition repeat_exn :: "char \<Rightarrow> int \<Rightarrow> py_error + string" where
  "repeat_exn c n =
     (if n < - (2 ^ 63) \<or> 2 ^ 63 \<le> n then Inl OverflowError else Inr (replicate (nat n) c))"

text \<open>
  \<^verbatim>\<open>proof_of_work\<close>, lines 108 to 117. An exception leaves the objects as they are at that
  moment, so the error comes with the state: \<open>Inl (e, w)\<close>.
\<close>

partial_function (option) pow_loop_exn ::
  "string \<Rightarrow> ref \<Rightarrow> string \<Rightarrow> world \<Rightarrow> ((py_error \<times> world) + world) option" where
  "pow_loop_exn num_of_zeros block calculated_hash w =
     (if \<not> startswith calculated_hash num_of_zeros
      then (let w' = w\<lparr>heap := (heap w)(block := (heap w block)\<lparr>nonce := nonce (heap w block) + 1\<rparr>)\<rparr>
            in case hash_block_exn (heap w' block) of
                 Inl e \<Rightarrow> Some (Inl (e, w'))
               | Inr h \<Rightarrow> pow_loop_exn num_of_zeros block h w')
      else Some (Inr w))"

definition proof_of_work_exn ::
  "ref \<Rightarrow> world \<Rightarrow> ((py_error \<times> world) + (ref \<times> world)) option" where
  "proof_of_work_exn block w =
     (case hash_block_exn (heap w block) of
        Inl e \<Rightarrow> Some (Inl (e, w))
      | Inr calculated_hash \<Rightarrow>
          (case repeat_exn CHR ''0'' (difficulty w) of
             Inl e \<Rightarrow> Some (Inl (e, w))
           | Inr num_of_zeros \<Rightarrow>
               (case pow_loop_exn num_of_zeros block calculated_hash w of
                  None \<Rightarrow> None
                | Some (Inl ew) \<Rightarrow> Some (Inl ew)
                | Some (Inr w') \<Rightarrow> Some (Inr (block, w')))))"



text \<open>\<^verbatim>\<open>is_valid\<close>, lines 129 to 139; it changes nothing, so an error comes alone.\<close>

fun is_valid_loop_exn :: "world \<Rightarrow> string \<Rightarrow> ref list \<Rightarrow> py_error + bool" where
  "is_valid_loop_exn w block_hash [] = Inr True"
| "is_valid_loop_exn w block_hash (block # rest) =
     (if block_hash \<noteq> prev_hash (heap w block) then Inr False
      else (case hash_block_exn (heap w block) of
              Inl e \<Rightarrow> Inl e
            | Inr h \<Rightarrow> is_valid_loop_exn w h rest))"

definition is_valid_exn :: "world \<Rightarrow> py_error + bool" where
  "is_valid_exn w =
     (case chain w of
        [] \<Rightarrow> Inl IndexError
      | first # rest \<Rightarrow>
          (case hash_block_exn (heap w first) of
             Inl e \<Rightarrow> Inl e
           | Inr h \<Rightarrow> is_valid_loop_exn w h rest))"

subsection \<open>Sessions\<close>

text \<open>
  The states of the application: \<^verbatim>\<open>setup\<close>, then any number of "Add Block" presses that
  return, with the slider assignment \<^verbatim>\<open>pychain.difficulty = difficulty\<close> in between.
  \<^verbatim>\<open>is_valid\<close> only returns a value, so "Validate Chain" leaves the state as it is.
\<close>

inductive session :: "world \<Rightarrow> bool" where
  session_setup: "session (setup_pychain defined_at now w0)"
| session_add: "session w \<Longrightarrow>
     add_block_button defined_at now sender_data receiver_data amount_data w = Some (Inr w') \<Longrightarrow>
     session w'"
| session_difficulty: "session w \<Longrightarrow> session (set_difficulty d w)"

text \<open>
  Any use of the \<^verbatim>\<open>PyChain\<close> methods by a caller: \<open>evolves new_only w w'\<close> when \<open>w'\<close>
  comes from \<open>w\<close> by calls of \<^verbatim>\<open>add_block\<close> on existing block objects, assignments to
  \<^verbatim>\<open>difficulty\<close>, calls of \<^verbatim>\<open>is_valid\<close>, and constructions of new blocks. With
  \<open>new_only\<close> the candidates are blocks not yet in the chain, as the handler passes them;
  without it any block object may be passed, one that is in the chain already included.
\<close>

inductive evolves :: "bool \<Rightarrow> world \<Rightarrow> world \<Rightarrow> bool" where
  evolves_refl: "evolves new_only w w"
| evolves_add_block: "evolves new_only w w1 \<Longrightarrow> c < used w1 \<Longrightarrow>
     (new_only \<longrightarrow> c \<notin> set (chain w1)) \<Longrightarrow> add_block c w1 = Some w2 \<Longrightarrow>
     evolves new_only w w2"
| evolves_difficulty: "evolves new_only w w1 \<Longrightarrow> evolves new_only w (set_difficulty d w1)"
| evolves_is_valid: "evolves new_only w w1 \<Longrightarrow> is_valid w1 = r \<Longrightarrow> evolves new_only w w1"
| evolves_new_Block: "evolves new_only w w1 \<Longrightarrow> evolves new_only w (snd (alloc b w1))"

subsection \<open>A concrete session\<close>

text \<open>
  The class statement runs at 00:00:43 and \<^verbatim>\<open>setup\<close> builds the chain; the slider sets
  difficulty 2; on a later run of the script, at 00:01:48, "Add Block" is pressed with
  sender \<^verbatim>\<open>A\<close>, receiver \<^verbatim>\<open>B\<close> and amount \<^verbatim>\<open>5\<close>.
\<close>

definition clock_a :: clock where
  "clock_a = \<lparr>hour = 0, minute = 0, second = 43\<rparr>"

definition clock_b :: clock where
  "clock_b = \<lparr>hour = 0, minute = 1, second = 48\<rparr>"

definition no_objects :: world where
  "no_objects =
     \<lparr>chain = [], difficulty = 0,
      heap = (\<lambda>_. \<lparr>record_val = Text [], creator_id = 0, prev_hash = [], timestamp = [], nonce = 0\<rparr>),
      used = 0\<rparr>"

definition genesis_a :: Block where
  "genesis_a =
     \<lparr>record_val = Text ''Genesis'', creator_id = 0, prev_hash = ''0'',
      timestamp = ''00:00:43'', nonce = 0\<rparr>"

definition hash_genesis_a :: string where
  "hash_genesis_a = ''640d742bbefcb4360efddc255625205888d87d2eb27d7744cbc773731ee76f97''"

definition candidate_b :: Block where
  "candidate_b =
     \<lparr>record_val = Rec \<lparr>sender = ''A'', receiver = ''B'', amount = PyStr ''5''\<rparr>,
      creator_id = 42, prev_hash = hash_genesis_a, timestamp = ''00:01:48'', nonce = 0\<rparr>"

definition world_setup :: world where
  "world_setup = \<lparr>chain = [0], difficulty = 4, heap = (heap no_objects)(0 := genesis_a), used = 1\<rparr>"

definition world_candidate :: world where
  "world_candidate =
     \<lparr>chain = [0], difficulty = 2,
      heap = (heap no_objects)(0 := genesis_a, 1 := candidate_b), used = 2\<rparr>"


definition world_mined :: world where
  "world_mined =
     \<lparr>chain = [0, 1], difficulty = 2,
      heap = (heap no_objects)(0 := genesis_a, 1 := candidate_b\<lparr>nonce := 1\<rparr>), used = 2\<rparr>"


text \<open>
  The genesis chain after the nonce of its block was overwritten with \<open>10 ^ 4300\<close>, and
  the state in which the search at difficulty 65 stops.
\<close>

definition world_unprintable :: world where
  "world_unprintable =
     \<lparr>chain = [0], difficulty = 4,
      heap = (heap no_objects)(0 := genesis_a\<lparr>nonce := str_digits_limit\<rparr>), used = 1\<rparr>"


section \<open>Evaluation\<close>

lemma replicate_numeral_Cons: "replicate (numeral k) x = x # replicate (pred_numeral k) x"
  by (simp add: numeral_eq_Suc)

lemmas sha_eval = sha256_hexdigest_def pad_def be64_def compress_def K256_def H256_def hex32_def
  hexdigit_def Sigma0_def Sigma1_def sigma0_def sigma1_def Ch_def Maj_def rotr_def shr_def Let_def
  add32_def not32_def schedule.simps replicate_numeral_Cons

lemmas str_eval = str_int_def str_nat.simps digit_def repr_str_def repr_quote_def repr_char_def
  repr_Record_def hexdigit_def sha256_new_def sha256_update_def two_digits_def strftime_HMS_def

lemma hash_block_concat:
  "hash_block b =
     sha256_hexdigest (str_payload (record_val b) @ str_int (creator_id b) @ timestamp b
       @ prev_hash b @ str_int (nonce b))"
  by (simp add: hash_block_def sha256_new_def sha256_update_def)

lemma hash_block_hash_input: "hash_block b = sha256_hexdigest (hash_input b)"
  by (simp add: hash_block_concat hash_input_def)

text \<open>The digests of the concrete session, as \<^verbatim>\<open>hashlib\<close> computes them.\<close>

lemma hash_block_genesis_a: "hash_block genesis_a = hash_genesis_a"
  by (simp add: hash_block_concat genesis_a_def hash_genesis_a_def str_eval sha_eval)


lemma hash_block_candidate_b:
  "hash_block candidate_b = ''9de07b653c79d6fdb6a5fe524d3df1d8e4fc1395b3dfb43cb62e0bfb83ab4ad1''"
  by (simp add: hash_block_concat candidate_b_def hash_genesis_a_def str_eval sha_eval)

lemma hash_block_candidate_b_1:
  "hash_block (candidate_b\<lparr>nonce := 1\<rparr>) =
     ''006146401c105725553c05806ce0fe15a9b6944a9cd7ce9be801ef6a37ed91e9''"
  by (simp add: hash_block_concat candidate_b_def hash_genesis_a_def str_eval sha_eval)

lemma startswith_Nil: "startswith s []"
  by (simp add: startswith_def)

section \<open>The digest and the mining loop\<close>







lemma pow_loop_Some:
  assumes "pow_loop z b ch w = Some w'"
  shows "\<exists>m. w' = w\<lparr>heap := (heap w)(b := (heap w b)\<lparr>nonce := m\<rparr>)\<rparr> \<and> nonce (heap w b) \<le> m
           \<and> (ch = hash_block (heap w b) \<longrightarrow> startswith (hash_block ((heap w b)\<lparr>nonce := m\<rparr>)) z)"
proof -
  let ?P = "\<lambda>z b ch w w'. \<exists>m. w' = w\<lparr>heap := (heap w)(b := (heap w b)\<lparr>nonce := m\<rparr>)\<rparr>
      \<and> nonce (heap w b) \<le> m
      \<and> (ch = hash_block (heap w b) \<longrightarrow> startswith (hash_block ((heap w b)\<lparr>nonce := m\<rparr>)) z)"
  have "?P z b ch w w'"
  proof (rule pow_loop.raw_induct [where P = ?P, OF _ assms])
    fix f z b ch w w'
    assume IH: "\<And>z b ch w w'. f z b ch w = Some w' \<Longrightarrow> ?P z b ch w w'"
      and eq: "(if \<not> startswith ch z
                then let w' = w\<lparr>heap := (heap w)(b := (heap w b)\<lparr>nonce := nonce (heap w b) + 1\<rparr>)\<rparr>
                     in f z b (hash_block (heap w' b)) w'
                else Some w) = Some w'"
    show "?P z b ch w w'"
    proof (cases "startswith ch z")
      case True
      with eq have "w' = w" by simp
      with True show ?thesis
        by (intro exI [of _ "nonce (heap w b)"]) auto
    next
      case False
      define w1 where "w1 = w\<lparr>heap := (heap w)(b := (heap w b)\<lparr>nonce := nonce (heap w b) + 1\<rparr>)\<rparr>"
      from False eq have "f z b (hash_block (heap w1 b)) w1 = Some w'"
        by (simp add: w1_def Let_def)
      from IH [OF this] obtain m where
        m: "w' = w1\<lparr>heap := (heap w1)(b := (heap w1 b)\<lparr>nonce := m\<rparr>)\<rparr>" "nonce (heap w1 b) \<le> m"
           "startswith (hash_block ((heap w1 b)\<lparr>nonce := m\<rparr>)) z"
        by blast
      then show ?thesis
        by (intro exI [of _ m]) (simp add: w1_def)
    qed
  qed
  then show ?thesis .
qed

lemma pow_loop_finds:
  assumes "ch = hash_block (heap w b)"
    and "nonce (heap w b) \<le> n"
    and "startswith (hash_block ((heap w b)\<lparr>nonce := n\<rparr>)) z"
  shows "\<exists>m. pow_loop z b ch w = Some (w\<lparr>heap := (heap w)(b := (heap w b)\<lparr>nonce := m\<rparr>)\<rparr>)
           \<and> startswith (hash_block ((heap w b)\<lparr>nonce := m\<rparr>)) z
           \<and> nonce (heap w b) \<le> m \<and> m \<le> n
           \<and> (\<forall>k. nonce (heap w b) \<le> k \<and> k < m \<longrightarrow> \<not> startswith (hash_block ((heap w b)\<lparr>nonce := k\<rparr>)) z)"
  using assms
proof (induction "nat (n - nonce (heap w b))" arbitrary: w ch)
  case 0
  then have n: "n = nonce (heap w b)" by simp
  with 0 have "startswith ch z" by simp
  then have "pow_loop z b ch w = Some w" by (subst pow_loop.simps) simp
  with 0 n show ?case by (intro exI [of _ n]) auto
next
  case (Suc d)
  show ?case
  proof (cases "startswith ch z")
    case True
    then have "pow_loop z b ch w = Some w" by (subst pow_loop.simps) simp
    with True Suc.prems show ?thesis
      by (intro exI [of _ "nonce (heap w b)"]) auto
  next
    case False
    define w' where "w' = w\<lparr>heap := (heap w)(b := (heap w b)\<lparr>nonce := nonce (heap w b) + 1\<rparr>)\<rparr>"
    have hb: "heap w' b = (heap w b)\<lparr>nonce := nonce (heap w b) + 1\<rparr>"
      by (simp add: w'_def)
    have step: "pow_loop z b ch w = pow_loop z b (hash_block (heap w' b)) w'"
      using False by (subst pow_loop.simps) (simp add: w'_def Let_def)
    have ne: "n \<noteq> nonce (heap w b)"
      using False Suc.prems by auto
    have d: "d = nat (n - nonce (heap w' b))"
      using Suc.hyps(2) by (simp add: hb)
    have le: "nonce (heap w' b) \<le> n"
      using ne Suc.prems(2) by (simp add: hb)
    have win: "startswith (hash_block ((heap w' b)\<lparr>nonce := n\<rparr>)) z"
      using Suc.prems(3) by (simp add: hb)
    from Suc.hyps(1) [OF d refl le win] obtain m where
      m: "pow_loop z b (hash_block (heap w' b)) w' = Some (w'\<lparr>heap := (heap w')(b := (heap w' b)\<lparr>nonce := m\<rparr>)\<rparr>)"
      "startswith (hash_block ((heap w' b)\<lparr>nonce := m\<rparr>)) z"
      "nonce (heap w' b) \<le> m" "m \<le> n"
      "\<forall>k. nonce (heap w' b) \<le> k \<and> k < m \<longrightarrow> \<not> startswith (hash_block ((heap w' b)\<lparr>nonce := k\<rparr>)) z"
      by blast
    have st: "w'\<lparr>heap := (heap w')(b := (heap w' b)\<lparr>nonce := m\<rparr>)\<rparr> = w\<lparr>heap := (heap w)(b := (heap w b)\<lparr>nonce := m\<rparr>)\<rparr>"
      by (simp add: w'_def)
    have first: "\<not> startswith (hash_block ((heap w b)\<lparr>nonce := nonce (heap w b)\<rparr>)) z"
      using False Suc.prems(1) by simp
    have "\<forall>k. nonce (heap w b) \<le> k \<and> k < m \<longrightarrow> \<not> startswith (hash_block ((heap w b)\<lparr>nonce := k\<rparr>)) z"
    proof (intro allI impI)
      fix k assume k: "nonce (heap w b) \<le> k \<and> k < m"
      show "\<not> startswith (hash_block ((heap w b)\<lparr>nonce := k\<rparr>)) z"
      proof (cases "k = nonce (heap w b)")
        case True
        with first show ?thesis by simp
      next
        case False
        with k have "nonce (heap w' b) \<le> k \<and> k < m" by (simp add: hb)
        with m(5) show ?thesis by (simp add: hb)
      qed
    qed
    with m step st show ?thesis
      by (intro exI [of _ m]) (simp add: hb)
  qed
qed




lemma proof_of_work_Some:
  assumes "proof_of_work block w = Some (r, w')"
  shows "r = block \<and> (\<exists>m. w' = w\<lparr>heap := (heap w)(block := (heap w block)\<lparr>nonce := m\<rparr>)\<rparr>
           \<and> nonce (heap w block) \<le> m
           \<and> startswith (hash_block ((heap w block)\<lparr>nonce := m\<rparr>))
               (replicate (nat (difficulty w)) CHR ''0''))"
proof -
  from assms have r: "r = block"
    and "pow_loop (replicate (nat (difficulty w)) CHR ''0'') block (hash_block (heap w block)) w = Some w'"
    by (auto simp: proof_of_work_def Let_def)
  from pow_loop_Some [OF this(2)] r show ?thesis
    by auto
qed

lemma proof_of_work_finds:
  assumes "nonce (heap w block) \<le> n"
    and "startswith (hash_block ((heap w block)\<lparr>nonce := n\<rparr>)) (replicate (nat (difficulty w)) CHR ''0'')"
  shows "\<exists>m. proof_of_work block w
             = Some (block, w\<lparr>heap := (heap w)(block := (heap w block)\<lparr>nonce := m\<rparr>)\<rparr>)"
proof -
  from pow_loop_finds [OF refl assms] obtain m where
    "pow_loop (replicate (nat (difficulty w)) CHR ''0'') block (hash_block (heap w block)) w
       = Some (w\<lparr>heap := (heap w)(block := (heap w block)\<lparr>nonce := m\<rparr>)\<rparr>)"
    by blast
  then show ?thesis
    by (intro exI [of _ m]) (simp add: proof_of_work_def Let_def)
qed

subsection \<open>The steps of the concrete session\<close>

lemma setup_pychain_a: "setup_pychain clock_a clock_a no_objects = world_setup"
  by (simp add: setup_pychain_def alloc_def new_Block_def world_setup_def no_objects_def
      genesis_a_def clock_a_def str_eval)

lemma pow_loop_world_candidate:
  "pow_loop ''00'' (Suc 0) (hash_block candidate_b) world_candidate
     = Some (world_candidate\<lparr>heap := (heap world_candidate)(Suc 0 := candidate_b\<lparr>nonce := 1\<rparr>)\<rparr>)"
proof -
  have h: "heap world_candidate (Suc 0) = candidate_b"
    by (simp add: world_candidate_def)
  have n: "candidate_b\<lparr>nonce := nonce candidate_b + 1\<rparr> = candidate_b\<lparr>nonce := 1\<rparr>"
    by (simp add: candidate_b_def)
  show ?thesis
    apply (subst pow_loop.simps)
    apply (simp add: hash_block_candidate_b startswith_def Let_def h n)
    apply (subst pow_loop.simps)
    apply (simp add: hash_block_candidate_b_1 startswith_def)
    done
qed

lemma proof_of_work_world_candidate:
  "proof_of_work (Suc 0) world_candidate
     = Some (Suc 0, world_candidate\<lparr>heap := (heap world_candidate)(Suc 0 := candidate_b\<lparr>nonce := 1\<rparr>)\<rparr>)"
proof -
  have "heap world_candidate (Suc 0) = candidate_b" "replicate (nat (difficulty world_candidate)) CHR ''0'' = ''00''"
    by (simp_all add: world_candidate_def replicate_numeral_Cons)
  then show ?thesis
    by (simp only: proof_of_work_def Let_def pow_loop_world_candidate option.map)
qed

lemma add_block_world_candidate: "add_block (Suc 0) world_candidate = Some world_mined"
  by (simp add: add_block_def proof_of_work_world_candidate) (simp add: world_candidate_def world_mined_def)

lemma add_block_button_b:
  "add_block_button clock_b clock_b ''A'' ''B'' ''5'' (set_difficulty 2 world_setup) = Some (Inr world_mined)"
proof -
  have "alloc (new_Block clock_b clock_b (Rec \<lparr>sender = ''A'', receiver = ''B'', amount = PyStr ''5''\<rparr>)
           seed (Some hash_genesis_a) None None) (set_difficulty 2 world_setup) = (Suc 0, world_candidate)"
    by (simp add: alloc_def new_Block_def set_difficulty_def world_setup_def world_candidate_def
        candidate_b_def seed_def clock_b_def str_eval)
  then show ?thesis
    by (simp add: add_block_button_def set_difficulty_def world_setup_def hash_block_genesis_a
        add_block_world_candidate Let_def)
qed


lemma add_block_Some:
  assumes "add_block c w = Some w'"
  shows "\<exists>m. w' = w\<lparr>chain := chain w @ [c], heap := (heap w)(c := (heap w c)\<lparr>nonce := m\<rparr>)\<rparr>
           \<and> nonce (heap w c) \<le> m
           \<and> startswith (hash_block ((heap w c)\<lparr>nonce := m\<rparr>)) (replicate (nat (difficulty w)) CHR ''0'')"
proof -
  from assms obtain r w1 where p: "proof_of_work c w = Some (r, w1)" and w': "w' = w1\<lparr>chain := chain w1 @ [r]\<rparr>"
    by (auto simp: add_block_def split: option.splits)
  from proof_of_work_Some [OF p] obtain m where
    "r = c" "w1 = w\<lparr>heap := (heap w)(c := (heap w c)\<lparr>nonce := m\<rparr>)\<rparr>"
    "nonce (heap w c) \<le> m"
    "startswith (hash_block ((heap w c)\<lparr>nonce := m\<rparr>)) (replicate (nat (difficulty w)) CHR ''0'')"
    by blast
  with w' show ?thesis
    by (intro exI [of _ m]) simp
qed

subsection \<open>The validation loop\<close>

lemma is_valid_loop_cong:
  assumes "\<forall>x\<in>set rest. prev_hash (heap w' x) = prev_hash (heap w x)"
    and "\<forall>x\<in>set (butlast rest). hash_block (heap w' x) = hash_block (heap w x)"
  shows "is_valid_loop w' h rest = is_valid_loop w h rest"
  using assms
proof (induction rest arbitrary: h)
  case Nil
  then show ?case by simp
next
  case (Cons b rest)
  show ?case
  proof (cases rest)
    case Nil
    with Cons.prems show ?thesis by simp
  next
    case (Cons c cs)
    with Cons.prems have "hash_block (heap w' b) = hash_block (heap w b)"
      and "\<forall>x\<in>set rest. prev_hash (heap w' x) = prev_hash (heap w x)"
      and "\<forall>x\<in>set (butlast rest). hash_block (heap w' x) = hash_block (heap w x)"
      and "prev_hash (heap w' b) = prev_hash (heap w b)"
      by auto
    with Cons.IH show ?thesis by simp
  qed
qed

lemma is_valid_loop_append:
  "fst (is_valid_loop w h (xs @ [x])) \<longleftrightarrow>
     fst (is_valid_loop w h xs)
     \<and> prev_hash (heap w x) = (if xs = [] then h else hash_block (heap w (last xs)))"
  by (induction xs arbitrary: h) (auto simp: split_beta)




lemma is_valid_heap_cong:
  assumes "chain w' = chain w"
    and "\<forall>x\<in>set (tl (chain w)). prev_hash (heap w' x) = prev_hash (heap w x)"
    and "\<forall>x\<in>set (butlast (chain w)). hash_block (heap w' x) = hash_block (heap w x)"
  shows "is_valid w' = is_valid w"
proof (cases "chain w")
  case Nil
  with assms(1) show ?thesis by (simp add: is_valid_def)
next
  case (Cons first rest)
  show ?thesis
  proof (cases rest)
    case Nil
    with Cons assms(1) show ?thesis by (simp add: is_valid_def)
  next
    case (Cons c cs)
    with \<open>chain w = first # rest\<close> assms(2,3)
    have "hash_block (heap w' first) = hash_block (heap w first)"
      and "\<forall>x\<in>set rest. prev_hash (heap w' x) = prev_hash (heap w x)"
      and "\<forall>x\<in>set (butlast rest). hash_block (heap w' x) = hash_block (heap w x)"
      by auto
    with is_valid_loop_cong [of rest w' w] \<open>chain w = first # rest\<close> assms(1) show ?thesis
      by (simp add: is_valid_def)
  qed
qed

lemma is_valid_empty: "chain w = [] \<Longrightarrow> is_valid w = Inl IndexError"
  by (simp add: is_valid_def)

subsection \<open>Sessions keep the chain linked\<close>

lemma is_valid_difficulty: "is_valid (w\<lparr>difficulty := d\<rparr>) = is_valid w"
  by (rule is_valid_heap_cong) simp_all

lemma is_valid_setup_pychain: "is_valid (setup_pychain defined_at now w0) = Inr True"
  by (simp add: setup_pychain_def alloc_def is_valid_def)

lemma is_valid_append_fresh:
  assumes v: "is_valid w = Inr True"
    and ne: "chain w \<noteq> []"
    and fresh: "new \<notin> set (chain w)"
    and same: "\<forall>x\<in>set (chain w). heap w' x = heap w x"
    and ch: "chain w' = chain w @ [new]"
    and link: "prev_hash (heap w' new) = hash_block (heap w (last (chain w)))"
  shows "is_valid w' = Inr True"
proof -
  from ne obtain first rest where c: "chain w = first # rest"
    by (cases "chain w") auto
  from v c have old: "fst (is_valid_loop w (hash_block (heap w first)) rest)"
    by (simp add: is_valid_def)
  from same c have "is_valid_loop w' (hash_block (heap w first)) rest
      = is_valid_loop w (hash_block (heap w first)) rest"
    by (intro is_valid_loop_cong) (auto dest: in_set_butlastD)
  with old have old': "fst (is_valid_loop w' (hash_block (heap w' first)) rest)"
    using same c by simp
  have last: "hash_block (heap w (last (chain w)))
      = (if rest = [] then hash_block (heap w' first) else hash_block (heap w' (last rest)))"
    using same c by auto
  from old' link last c ch show ?thesis
    by (simp add: is_valid_def is_valid_loop_append)
qed

lemma session_invariant:
  assumes "session w"
  shows "chain w \<noteq> [] \<and> (\<forall>x\<in>set (chain w). x < used w) \<and> distinct (chain w)
         \<and> is_valid w = Inr True"
  using assms
proof (induction rule: session.induct)
  case (session_setup defined_at now w0)
  then show ?case
    by (simp add: is_valid_setup_pychain) (simp add: setup_pychain_def alloc_def)
next
  case (session_add w defined_at now sender_data receiver_data amount_data w')
  let ?b = "new_Block defined_at now
              (Rec \<lparr>sender = sender_data, receiver = receiver_data, amount = PyStr amount_data\<rparr>)
              seed (Some (hash_block (heap w (last (chain w))))) None None"
  let ?w1 = "w\<lparr>heap := (heap w)(used w := ?b), used := Suc (used w)\<rparr>"
  from session_add.IH have ne: "chain w \<noteq> []" and lt: "\<forall>x\<in>set (chain w). x < used w"
    and d: "distinct (chain w)" and v: "is_valid w = Inr True"
    by simp_all
  from session_add.hyps(2) ne have "add_block (used w) ?w1 = Some w'"
    by (auto simp: add_block_button_def alloc_def Let_def)
  from add_block_Some [OF this] obtain m where
    w': "w' = ?w1\<lparr>chain := chain ?w1 @ [used w],
                  heap := (heap ?w1)(used w := (heap ?w1 (used w))\<lparr>nonce := m\<rparr>)\<rparr>"
    by blast
  from lt have fresh: "used w \<notin> set (chain w)"
    by auto
  have same: "\<forall>x\<in>set (chain w). heap w' x = heap w x"
    using fresh by (auto simp: w')
  have ch: "chain w' = chain w @ [used w]"
    by (simp add: w')
  have link: "prev_hash (heap w' (used w)) = hash_block (heap w (last (chain w)))"
    by (simp add: w' new_Block_def)
  from is_valid_append_fresh [OF v ne fresh same ch link] have "is_valid w' = Inr True" .
  moreover from lt have "\<forall>x\<in>set (chain w'). x < used w'"
    by (auto simp: w')
  ultimately show ?case
    using d fresh by (simp add: ch)
next
  case (session_difficulty w d)
  then show ?case
    by (simp add: set_difficulty_def is_valid_difficulty)
qed

subsection \<open>Append-only growth\<close>

lemma same_but_nonce_refl: "same_but_nonce a a"
  by (simp add: same_but_nonce_def)

lemma same_but_nonce_update: "same_but_nonce a b \<Longrightarrow> same_but_nonce (a\<lparr>nonce := m\<rparr>) b"
  by (simp add: same_but_nonce_def)

lemma evolves_grows:
  assumes "evolves f w w'"
  shows "(\<exists>ys. chain w' = chain w @ ys) \<and> used w \<le> used w'
         \<and> (\<forall>r<used w. same_but_nonce (heap w' r) (heap w r))
         \<and> ((\<forall>x\<in>set (chain w). x < used w) \<longrightarrow> (\<forall>x\<in>set (chain w'). x < used w'))"
  using assms
proof (induction rule: evolves.induct)
  case (evolves_refl f w)
  then show ?case by (simp add: same_but_nonce_refl)
next
  case (evolves_add_block f w w1 c w2)
  from add_block_Some [OF evolves_add_block.hyps(4)] obtain m where
    w2: "w2 = w1\<lparr>chain := chain w1 @ [c], heap := (heap w1)(c := (heap w1 c)\<lparr>nonce := m\<rparr>)\<rparr>"
    by blast
  from evolves_add_block.IH obtain ys where ys: "chain w1 = chain w @ ys"
    and u: "used w \<le> used w1"
    and h: "\<forall>r<used w. same_but_nonce (heap w1 r) (heap w r)"
    and lt: "(\<forall>x\<in>set (chain w). x < used w) \<longrightarrow> (\<forall>x\<in>set (chain w1). x < used w1)"
    by blast
  from h have "\<forall>r<used w. same_but_nonce (heap w2 r) (heap w r)"
    by (simp add: w2 same_but_nonce_update)
  moreover from lt evolves_add_block.hyps(2)
  have "(\<forall>x\<in>set (chain w). x < used w) \<longrightarrow> (\<forall>x\<in>set (chain w2). x < used w2)"
    by (auto simp: w2)
  ultimately show ?case
    using ys u by (simp add: w2)
next
  case (evolves_difficulty f w w1 d)
  then show ?case
    by (simp add: set_difficulty_def)
next
  case (evolves_is_valid f w w1 r)
  then show ?case by simp
next
  case (evolves_new_Block f w w1 b)
  then show ?case
    by (auto simp: alloc_def less_Suc_eq)
qed

lemma evolves_new_only_same:
  assumes "evolves True w w'"
    and "\<forall>x\<in>set (chain w). x < used w"
  shows "\<forall>r\<in>set (chain w). heap w' r = heap w r"
  using assms
proof (induction True w w' rule: evolves.induct)
  case (evolves_refl w)
  then show ?case by simp
next
  case (evolves_add_block w w1 c w2)
  from add_block_Some [OF evolves_add_block.hyps(5)] obtain m where
    w2: "w2 = w1\<lparr>chain := chain w1 @ [c], heap := (heap w1)(c := (heap w1 c)\<lparr>nonce := m\<rparr>)\<rparr>"
    by blast
  from evolves_grows [OF evolves_add_block.hyps(1)] obtain ys where "chain w1 = chain w @ ys"
    by blast
  with evolves_add_block.hyps(4) have "c \<notin> set (chain w)"
    by simp
  with evolves_add_block.hyps(2) [OF evolves_add_block.prems] show ?case
    by (auto simp: w2)
next
  case (evolves_difficulty w w1 d)
  then show ?case
    by (simp add: set_difficulty_def)
next
  case (evolves_is_valid w w1 r)
  then show ?case by simp
next
  case (evolves_new_Block w w1 b)
  from evolves_grows [OF evolves_new_Block.hyps(1)] have "used w \<le> used w1"
    by blast
  with evolves_new_Block.hyps(2) [OF evolves_new_Block.prems] evolves_new_Block.prems show ?case
    by (auto simp: alloc_def)
qed

subsection \<open>A block of the chain passed to add_block again\<close>

lemma hash_block_genesis_a_1:
  "hash_block (genesis_a\<lparr>nonce := 1\<rparr>) =
     ''00b0dd192860a03f78691d37b7c5252aca5e56096775f14f39e6a15acd4276ad''"
  by (simp add: hash_block_concat genesis_a_def str_eval sha_eval)

lemma add_block_genesis_again:
  "add_block 0 (set_difficulty 2 world_setup)
     = Some \<lparr>chain = [0, 0], difficulty = 2,
             heap = (heap no_objects)(0 := genesis_a\<lparr>nonce := 1\<rparr>), used = 1\<rparr>"
proof -
  let ?w = "set_difficulty 2 world_setup"
  have h: "heap ?w 0 = genesis_a" "replicate (nat (difficulty ?w)) CHR ''0'' = ''00''"
    by (simp_all add: set_difficulty_def world_setup_def replicate_numeral_Cons)
  have n: "genesis_a\<lparr>nonce := nonce genesis_a + 1\<rparr> = genesis_a\<lparr>nonce := 1\<rparr>"
    by (simp add: genesis_a_def)
  have "pow_loop ''00'' 0 (hash_block genesis_a) ?w
      = Some (?w\<lparr>heap := (heap ?w)(0 := genesis_a\<lparr>nonce := 1\<rparr>)\<rparr>)"
    apply (subst pow_loop.simps)
    apply (simp add: hash_block_genesis_a hash_genesis_a_def startswith_def Let_def h n)
    apply (subst pow_loop.simps)
    apply (simp add: hash_block_genesis_a_1 startswith_def)
    done
  then have "proof_of_work 0 ?w = Some (0, ?w\<lparr>heap := (heap ?w)(0 := genesis_a\<lparr>nonce := 1\<rparr>)\<rparr>)"
    by (simp only: proof_of_work_def Let_def h option.map)
  then show ?thesis
    by (simp add: add_block_def) (simp add: set_difficulty_def world_setup_def)
qed

subsection \<open>The methods with exceptions\<close>

lemma str_digits_limit_ge: "100 \<le> str_digits_limit"
proof -
  have "(10::int) ^ 2 \<le> 10 ^ 4300"
    by (rule power_increasing) simp_all
  then show ?thesis
    unfolding str_digits_limit_def by (simp only: power2_eq_square)
qed

lemma printable_int_small: "\<bar>i\<bar> < 100 \<Longrightarrow> printable_int i"
  using str_digits_limit_ge by (simp add: printable_int_def)

lemma not_printable_limit: "\<not> printable_int str_digits_limit"
  using str_digits_limit_ge by (simp add: printable_int_def)

lemma str_int_exn_eq: "str_int_exn i = (if printable_int i then Inr (str_int i) else Inl ValueError)"
  by (simp add: str_int_exn_def printable_int_def not_less)

lemma str_payload_exn_eq:
  "str_payload_exn r = (if printable_payload r then Inr (str_payload r) else Inl ValueError)"
proof (cases r)
  case (Text s)
  then show ?thesis by simp
next
  case (Rec x)
  then show ?thesis
    by (cases "amount x") (simp_all add: repr_Record_exn_def repr_Record_def str_int_exn_eq)
qed

lemma hash_block_exn_eq:
  "hash_block_exn b = (if printable b then Inr (hash_block b) else Inl ValueError)"
  by (simp add: hash_block_exn_def hash_block_def printable_def str_payload_exn_eq str_int_exn_eq Let_def)

lemma printable_nonce:
  "printable (b\<lparr>nonce := k\<rparr>) \<longleftrightarrow>
     printable_payload (record_val b) \<and> printable_int (creator_id b) \<and> printable_int k"
  by (simp add: printable_def)








lemma is_valid_loop_exn_cong:
  assumes "\<forall>x\<in>set rest. prev_hash (heap w' x) = prev_hash (heap w x)"
    and "\<forall>x\<in>set (butlast rest). hash_block_exn (heap w' x) = hash_block_exn (heap w x)"
    and "rest \<noteq> [] \<longrightarrow> printable (heap w' (last rest)) \<and> printable (heap w (last rest))"
  shows "is_valid_loop_exn w' h rest = is_valid_loop_exn w h rest"
  using assms
proof (induction rest arbitrary: h)
  case Nil
  then show ?case by simp
next
  case (Cons b rest)
  show ?case
  proof (cases rest)
    case Nil
    with Cons.prems show ?thesis by (simp add: hash_block_exn_eq)
  next
    case (Cons c cs)
    with Cons.prems have "hash_block_exn (heap w' b) = hash_block_exn (heap w b)"
      and "\<forall>x\<in>set rest. prev_hash (heap w' x) = prev_hash (heap w x)"
      and "\<forall>x\<in>set (butlast rest). hash_block_exn (heap w' x) = hash_block_exn (heap w x)"
      and "rest \<noteq> [] \<longrightarrow> printable (heap w' (last rest)) \<and> printable (heap w (last rest))"
      and "prev_hash (heap w' b) = prev_hash (heap w b)"
      by auto
    with Cons.IH show ?thesis by (simp split: sum.splits)
  qed
qed

lemma is_valid_loop_exn_printable:
  "\<forall>x\<in>set rest. printable (heap w x) \<Longrightarrow>
     is_valid_loop_exn w h rest = Inr (fst (is_valid_loop w h rest))"
  by (induction rest arbitrary: h) (simp_all add: hash_block_exn_eq split_beta)

lemma is_valid_exn_printable:
  "\<forall>x\<in>set (chain w). printable (heap w x) \<Longrightarrow> is_valid_exn w = is_valid w"
  by (cases "chain w") (simp_all add: is_valid_exn_def is_valid_def hash_block_exn_eq is_valid_loop_exn_printable)


lemma printable_candidate_b: "printable candidate_b"
  by (simp add: printable_def candidate_b_def printable_int_small)

lemma printable_genesis_a: "printable genesis_a"
  by (simp add: printable_def genesis_a_def printable_int_small)


lemma proof_of_work_exn_nonpositive:
  assumes "difficulty w \<le> 0"
  shows "proof_of_work_exn block w =
           (if \<not> printable (heap w block) then Some (Inl (ValueError, w))
            else if difficulty w < - (2 ^ 63) then Some (Inl (OverflowError, w))
            else Some (Inr (block, w)))"
proof (cases "printable (heap w block)")
  case False
  then show ?thesis
    by (simp add: proof_of_work_exn_def hash_block_exn_eq)
next
  case True
  show ?thesis
  proof (cases "difficulty w < - (2 ^ 63)")
    case True
    with \<open>printable (heap w block)\<close> show ?thesis
      by (simp add: proof_of_work_exn_def hash_block_exn_eq repeat_exn_def)
  next
    case False
    with assms have d: "repeat_exn CHR ''0'' (difficulty w) = Inr []"
      by (simp add: repeat_exn_def)
    have "pow_loop_exn [] block (hash_block (heap w block)) w = Some (Inr w)"
      by (subst pow_loop_exn.simps) (simp add: startswith_Nil)
    with d False \<open>printable (heap w block)\<close> show ?thesis
      by (simp add: proof_of_work_exn_def hash_block_exn_eq)
  qed
qed

lemma is_valid_exn_tail:
  assumes ne: "chain w \<noteq> []"
    and ch: "chain w' = chain w"
    and tail: "last (chain w) \<notin> set (butlast (chain w))"
    and same: "\<forall>x. x \<noteq> last (chain w) \<longrightarrow> heap w' x = heap w x"
    and prev: "prev_hash (heap w' (last (chain w))) = prev_hash (heap w (last (chain w)))"
    and p: "printable (heap w (last (chain w)))"
    and p': "printable (heap w' (last (chain w)))"
  shows "is_valid_exn w' = is_valid_exn w"
proof -
  from ne obtain first rest where c: "chain w = first # rest"
    by (cases "chain w") auto
  show ?thesis
  proof (cases rest)
    case Nil
    with c ch p p' show ?thesis
      by (simp add: is_valid_exn_def hash_block_exn_eq)
  next
    case (Cons x xs)
    with c tail have f: "first \<noteq> last (chain w)" and b: "\<forall>y\<in>set (butlast rest). y \<noteq> last (chain w)"
      by auto
    from f same have hf: "hash_block_exn (heap w' first) = hash_block_exn (heap w first)"
      by simp
    have l: "last rest = last (chain w)"
      using c Cons by simp
    have "is_valid_loop_exn w' h rest = is_valid_loop_exn w h rest" for h
    proof (rule is_valid_loop_exn_cong)
      show "\<forall>y\<in>set rest. prev_hash (heap w' y) = prev_hash (heap w y)"
        using same prev by (metis)
      show "\<forall>y\<in>set (butlast rest). hash_block_exn (heap w' y) = hash_block_exn (heap w y)"
        using same b by simp
      show "rest \<noteq> [] \<longrightarrow> printable (heap w' (last rest)) \<and> printable (heap w (last rest))"
        using p p' l by simp
    qed
    with c ch hf show ?thesis
      by (simp add: is_valid_exn_def split: sum.splits)
  qed
qed

section \<open>Claims\<close>





text \<open>
  C3. Every state of a session (\<^verbatim>\<open>setup\<close>, then any number of "Add Block" presses that
  return, each building its candidate with \<^verbatim>\<open>prev_hash\<close> set to the digest of the tail of
  the chain at that moment, with any difficulty set in between and no block touched
  otherwise) is reported valid.
\<close>

theorem session_is_valid:
  assumes "session w"
  shows "is_valid w = Inr True"
  using session_invariant [OF assms] by simp

theorem session_is_valid_witness:
  "session world_mined \<and> length (chain world_mined) = 2 \<and> is_valid world_mined = Inr True"
proof -
  have "session (setup_pychain clock_a clock_a no_objects)"
    by (rule session_setup)
  then have "session (set_difficulty 2 world_setup)"
    unfolding setup_pychain_a by (rule session_difficulty)
  then have s: "session world_mined"
    using add_block_button_b by (rule session_add)
  from session_is_valid [OF s] s show ?thesis
    by (simp add: world_mined_def)
qed

text \<open>
  C4. In every state reached from \<^verbatim>\<open>setup\<close> by calls of \<^verbatim>\<open>add_block\<close>, assignments to
  the difficulty, calls of \<^verbatim>\<open>is_valid\<close> and constructions of blocks, the chain is not
  empty and its block 0 is the genesis object, with the record \<^verbatim>\<open>'Genesis'\<close>,
  \<^verbatim>\<open>creator_id\<close> 0 and \<^verbatim>\<open>prev_hash\<close> \<^verbatim>\<open>"0"\<close> it was built with. Whatever happens later, the
  chain of the earlier state is an initial segment of the later chain (nothing is removed,
  reordered or replaced), and every block object that existed keeps its record,
  creator, previous hash and timestamp. When every candidate is a block not yet in the
  chain, the blocks of the chain are not changed at all, the nonce included.
\<close>

theorem chain_append_only:
  assumes "evolves new_only (setup_pychain defined_at now w0) w"
    and "evolves new_only w w'"
  shows "chain w \<noteq> []
         \<and> chain w ! 0 = used w0
         \<and> same_but_nonce (block_at w 0) (new_Block defined_at now (Text ''Genesis'') 0 None None None)
         \<and> record_val (block_at w 0) = Text ''Genesis''
         \<and> creator_id (block_at w 0) = 0
         \<and> prev_hash (block_at w 0) = ''0''
         \<and> length (chain w) \<le> length (chain w')
         \<and> take (length (chain w)) (chain w') = chain w
         \<and> (\<forall>r<used w. same_but_nonce (heap w' r) (heap w r))
         \<and> (new_only \<longrightarrow>
               block_at w 0 = new_Block defined_at now (Text ''Genesis'') 0 None None None
               \<and> (\<forall>r\<in>set (chain w). heap w' r = heap w r))"
proof -
  let ?s = "setup_pychain defined_at now w0"
  let ?g = "new_Block defined_at now (Text ''Genesis'') 0 None None None"
  have s: "chain ?s = [used w0]" "used ?s = Suc (used w0)" "heap ?s (used w0) = ?g"
    by (simp_all add: setup_pychain_def alloc_def)
  from evolves_grows [OF assms(1)] s obtain ys where
    c: "chain w = used w0 # ys"
    and g: "same_but_nonce (heap w (used w0)) ?g"
    and lt: "\<forall>x\<in>set (chain w). x < used w"
    by auto
  from evolves_grows [OF assms(2)] obtain zs where
    c': "chain w' = chain w @ zs"
    and h: "\<forall>r<used w. same_but_nonce (heap w' r) (heap w r)"
    by blast
  from g have f: "record_val (heap w (used w0)) = Text ''Genesis''" "creator_id (heap w (used w0)) = 0"
    "prev_hash (heap w (used w0)) = ''0''"
    by (simp_all add: same_but_nonce_def new_Block_def)
  have "new_only \<longrightarrow> block_at w 0 = ?g \<and> (\<forall>r\<in>set (chain w). heap w' r = heap w r)"
  proof
    assume n: new_only
    with assms have a: "evolves True ?s w" and b: "evolves True w w'"
      by simp_all
    from evolves_new_only_same [OF a] s have "heap w (used w0) = ?g"
      by simp
    with evolves_new_only_same [OF b lt] c
    show "block_at w 0 = ?g \<and> (\<forall>r\<in>set (chain w). heap w' r = heap w r)"
      by (simp add: block_at_def)
  qed
  with c c' h g f show ?thesis
    by (simp add: block_at_def)
qed

theorem chain_append_only_witness:
  "evolves True (setup_pychain clock_a clock_a no_objects) world_candidate
   \<and> evolves True world_candidate world_mined
   \<and> chain world_candidate = [0] \<and> chain world_mined = [0, 1]
   \<and> take (length (chain world_candidate)) (chain world_mined) = chain world_candidate
   \<and> block_at world_candidate 0 = new_Block clock_a clock_a (Text ''Genesis'') 0 None None None
   \<and> heap world_mined 0 = heap world_candidate 0"
proof -
  have "evolves True world_setup world_setup"
    by (rule evolves_refl)
  then have "evolves True world_setup (set_difficulty 2 world_setup)"
    by (rule evolves_difficulty)
  then have "evolves True world_setup (snd (alloc candidate_b (set_difficulty 2 world_setup)))"
    by (rule evolves_new_Block)
  moreover have "snd (alloc candidate_b (set_difficulty 2 world_setup)) = world_candidate"
    by (simp add: alloc_def set_difficulty_def world_setup_def world_candidate_def)
  ultimately have a: "evolves True (setup_pychain clock_a clock_a no_objects) world_candidate"
    by (simp add: setup_pychain_a)
  have "evolves True world_candidate world_candidate"
    by (rule evolves_refl)
  then have b: "evolves True world_candidate world_mined"
  proof (rule evolves_add_block)
    show "Suc 0 < used world_candidate"
      by (simp add: world_candidate_def)
    show "True \<longrightarrow> Suc 0 \<notin> set (chain world_candidate)"
      by (simp add: world_candidate_def)
    show "add_block (Suc 0) world_candidate = Some world_mined"
      by (rule add_block_world_candidate)
  qed
  have c: "chain world_candidate = [0]" "chain world_mined = [0, 1]"
    by (simp_all add: world_candidate_def world_mined_def)
  from chain_append_only [OF a b] a b c show ?thesis
    by simp
qed




text \<open>
  C6. When \<^verbatim>\<open>proof_of_work(block)\<close> returns, it returns the block it was given; the
  \<^verbatim>\<open>record\<close>, \<^verbatim>\<open>creator_id\<close>, \<^verbatim>\<open>prev_hash\<close> and \<^verbatim>\<open>timestamp\<close> of that block are as before
  (only its nonce may differ), every other block object is as before, and the chain
  sequence and the difficulty are unchanged.
\<close>

theorem proof_of_work_frame:
  assumes "proof_of_work block w = Some (r, w')"
  shows "r = block
         \<and> record_val (heap w' block) = record_val (heap w block)
         \<and> creator_id (heap w' block) = creator_id (heap w block)
         \<and> prev_hash (heap w' block) = prev_hash (heap w block)
         \<and> timestamp (heap w' block) = timestamp (heap w block)
         \<and> heap w' block = (heap w block)\<lparr>nonce := nonce (heap w' block)\<rparr>
         \<and> (\<forall>other. other \<noteq> block \<longrightarrow> heap w' other = heap w other)
         \<and> chain w' = chain w \<and> difficulty w' = difficulty w \<and> used w' = used w"
proof -
  from proof_of_work_Some [OF assms] obtain m where
    "r = block" and "w' = w\<lparr>heap := (heap w)(block := (heap w block)\<lparr>nonce := m\<rparr>)\<rparr>"
    by blast
  then show ?thesis
    by simp
qed

theorem proof_of_work_frame_witness:
  "proof_of_work 1 world_candidate
     = Some (1, world_candidate\<lparr>heap := (heap world_candidate)(1 := candidate_b\<lparr>nonce := 1\<rparr>)\<rparr>)
   \<and> record_val (heap (world_candidate\<lparr>heap := (heap world_candidate)(1 := candidate_b\<lparr>nonce := 1\<rparr>)\<rparr>) 1)
       = record_val (heap world_candidate 1)
   \<and> heap (world_candidate\<lparr>heap := (heap world_candidate)(1 := candidate_b\<lparr>nonce := 1\<rparr>)\<rparr>) 0
       = heap world_candidate 0
   \<and> nonce (heap world_candidate 1) = 0
   \<and> nonce (heap (world_candidate\<lparr>heap := (heap world_candidate)(1 := candidate_b\<lparr>nonce := 1\<rparr>)\<rparr>) 1) = 1"
proof -
  have p: "proof_of_work 1 world_candidate
     = Some (1, world_candidate\<lparr>heap := (heap world_candidate)(1 := candidate_b\<lparr>nonce := 1\<rparr>)\<rparr>)"
    using proof_of_work_world_candidate by simp
  have n: "nonce (heap world_candidate 1) = 0"
    by (simp add: world_candidate_def candidate_b_def)
  from proof_of_work_frame [OF p] p n show ?thesis
    by simp
qed

text \<open>
  C7, as the code has it. A block built without a timestamp gets the clock reading of the
  moment the \<^verbatim>\<open>class Block\<close> statement ran, not of its own construction: with the class
  defined at 00:00:43, a block built at 00:00:43 and one built at 00:01:48 both carry
  \<^verbatim>\<open>00:00:43\<close>.
\<close>

theorem timestamp_is_class_definition_time:
  "timestamp (new_Block defined_at now r c p None n) = strftime_HMS defined_at
   \<and> strftime_HMS clock_a = ''00:00:43'' \<and> strftime_HMS clock_b = ''00:01:48''
   \<and> timestamp (new_Block clock_a clock_a (Text ''Genesis'') 0 None None None) = ''00:00:43''
   \<and> timestamp (new_Block clock_a clock_b (Text ''Genesis'') 0 None None None) = ''00:00:43''"
  by (simp add: new_Block_def strftime_HMS_def two_digits_def digit_def clock_a_def clock_b_def)

text \<open>
  C8, as the claim has it, fails: for a difficulty below \<open>- 2 ^ 63\<close> the expression
  \<^verbatim>\<open>'0' * self.difficulty\<close> raises \<^verbatim>\<open>OverflowError\<close> and \<^verbatim>\<open>proof_of_work\<close> does not return.
\<close>

theorem proof_of_work_exn_overflow:
  "proof_of_work_exn 1 (set_difficulty (- (2 ^ 64)) world_candidate)
     = Some (Inl (OverflowError, set_difficulty (- (2 ^ 64)) world_candidate))"
proof -
  have "printable (heap (set_difficulty (- (2 ^ 64)) world_candidate) (Suc 0))"
    by (simp add: set_difficulty_def world_candidate_def printable_candidate_b)
  then show ?thesis
    by (simp add: proof_of_work_exn_def hash_block_exn_eq repeat_exn_def set_difficulty_def)
qed

text \<open>
  C8, as the code has it. With a difficulty of 0 or below and not below \<open>- 2 ^ 63\<close>, the
  required prefix \<^verbatim>\<open>'0' * difficulty\<close> is the empty string, every digest starts with it,
  and for every block that can be hashed \<^verbatim>\<open>proof_of_work\<close> returns at once: the loop body
  never runs, the block is returned and nothing is changed, the nonce included. A block
  that cannot be hashed makes the call raise \<^verbatim>\<open>ValueError\<close>, and a difficulty below
  \<open>- 2 ^ 63\<close> \<^verbatim>\<open>OverflowError\<close>, the state unchanged in both cases.
\<close>

theorem proof_of_work_exn_nonpositive_difficulty:
  assumes "difficulty w \<le> 0"
  shows "(- (2 ^ 63) \<le> difficulty w \<longrightarrow> repeat_exn CHR ''0'' (difficulty w) = Inr [])
         \<and> (\<forall>h. startswith h [])
         \<and> (- (2 ^ 63) \<le> difficulty w \<and> printable (heap w block)
               \<longrightarrow> proof_of_work_exn block w = Some (Inr (block, w)))
         \<and> (\<not> printable (heap w block)
               \<longrightarrow> proof_of_work_exn block w = Some (Inl (ValueError, w)))
         \<and> (difficulty w < - (2 ^ 63) \<and> printable (heap w block)
               \<longrightarrow> proof_of_work_exn block w = Some (Inl (OverflowError, w)))"
  using assms proof_of_work_exn_nonpositive [OF assms, of block]
  by (auto simp: repeat_exn_def startswith_Nil)

theorem proof_of_work_exn_nonpositive_difficulty_witness:
  "difficulty (set_difficulty 0 world_candidate) \<le> 0
   \<and> - (2 ^ 63) \<le> difficulty (set_difficulty 0 world_candidate)
   \<and> printable (heap (set_difficulty 0 world_candidate) 1)
   \<and> proof_of_work_exn 1 (set_difficulty 0 world_candidate)
        = Some (Inr (1, set_difficulty 0 world_candidate))
   \<and> difficulty (set_difficulty (- 3) world_candidate) \<le> 0
   \<and> proof_of_work_exn 1 (set_difficulty (- 3) world_candidate)
        = Some (Inr (1, set_difficulty (- 3) world_candidate))
   \<and> \<not> printable (heap (set_difficulty 0 world_unprintable) 0)
   \<and> proof_of_work_exn 0 (set_difficulty 0 world_unprintable)
        = Some (Inl (ValueError, set_difficulty 0 world_unprintable))
   \<and> difficulty (set_difficulty (- (2 ^ 64)) world_candidate) < - (2 ^ 63)
   \<and> proof_of_work_exn 1 (set_difficulty (- (2 ^ 64)) world_candidate)
        = Some (Inl (OverflowError, set_difficulty (- (2 ^ 64)) world_candidate))"
proof -
  have a: "difficulty (set_difficulty 0 world_candidate) \<le> 0"
    and a': "- (2 ^ 63) \<le> difficulty (set_difficulty 0 world_candidate)"
    and b: "difficulty (set_difficulty (- 3) world_candidate) \<le> 0"
    and b': "- (2 ^ 63) \<le> difficulty (set_difficulty (- 3) world_candidate)"
    and c: "difficulty (set_difficulty 0 world_unprintable) \<le> 0"
    and e: "difficulty (set_difficulty (- (2 ^ 64)) world_candidate) \<le> 0"
    and e': "difficulty (set_difficulty (- (2 ^ 64)) world_candidate) < - (2 ^ 63)"
    by (simp_all add: set_difficulty_def world_unprintable_def)
  have p: "printable (heap (set_difficulty 0 world_candidate) 1)"
    "printable (heap (set_difficulty (- 3) world_candidate) 1)"
    "printable (heap (set_difficulty (- (2 ^ 64)) world_candidate) 1)"
    by (simp_all add: set_difficulty_def world_candidate_def printable_candidate_b)
  have u: "\<not> printable (heap (set_difficulty 0 world_unprintable) 0)"
    by (simp add: set_difficulty_def world_unprintable_def printable_def not_printable_limit)
  from proof_of_work_exn_nonpositive_difficulty [OF a, of 1]
    proof_of_work_exn_nonpositive_difficulty [OF b, of 1]
    proof_of_work_exn_nonpositive_difficulty [OF c, of 0]
    proof_of_work_exn_nonpositive_difficulty [OF e, of 1]
    a a' b b' e' p u
  show ?thesis
    by blast
qed

text \<open>
  C9, as the claim has it, fails: \<^verbatim>\<open>is_valid\<close> compares the digest of the last block with
  nothing, but it does compute it (line 129 for a chain of one block, line 136 at the end
  of the loop). The genesis chain is valid; once the nonce of its block is overwritten
  with \<open>10 ^ 4300\<close>, \<^verbatim>\<open>is_valid\<close> raises \<^verbatim>\<open>ValueError\<close> instead of returning \<^verbatim>\<open>True\<close>.
\<close>

theorem is_valid_exn_tail_unprintable:
  "is_valid_exn world_setup = Inr True \<and> is_valid_exn world_unprintable = Inl ValueError"
proof -
  have "printable (heap world_setup 0)"
    by (simp add: world_setup_def printable_genesis_a)
  moreover have "\<not> printable (heap world_unprintable 0)"
    by (simp add: world_unprintable_def printable_def not_printable_limit)
  ultimately show ?thesis
    by (simp add: is_valid_exn_def hash_block_exn_eq world_setup_def world_unprintable_def)
qed

text \<open>
  C9, as the code has it. \<^verbatim>\<open>is_valid\<close> compares the digest of every block but the last
  with the \<^verbatim>\<open>prev_hash\<close> of its successor; the digest of the last block is computed and
  never compared. So when the tail block object stands at no earlier position of the
  chain and can be hashed, overwriting its \<^verbatim>\<open>record\<close>, \<^verbatim>\<open>creator_id\<close>, \<^verbatim>\<open>timestamp\<close> and
  \<^verbatim>\<open>nonce\<close> with values that can be hashed (its \<^verbatim>\<open>prev_hash\<close> kept) leaves the result of
  \<^verbatim>\<open>is_valid\<close> as it was; and on a chain of the genesis block alone \<^verbatim>\<open>is_valid\<close> returns
  \<^verbatim>\<open>True\<close> whatever that block holds, as long as it can be hashed, and raises
  \<^verbatim>\<open>ValueError\<close> when it cannot.
\<close>

theorem is_valid_exn_ignores_tail:
  assumes "chain w \<noteq> []"
    and "last (chain w) \<notin> set (butlast (chain w))"
    and "printable (heap w (last (chain w)))"
    and "printable_payload r" and "printable_int c" and "printable_int n"
  shows "is_valid_exn (w\<lparr>heap := (heap w)(last (chain w) :=
                     (heap w (last (chain w)))\<lparr>record_val := r, creator_id := c,
                        timestamp := t, nonce := n\<rparr>)\<rparr>) = is_valid_exn w
         \<and> (length (chain w) = 1 \<longrightarrow>
               (\<forall>b. is_valid_exn (w\<lparr>heap := (heap w)(last (chain w) := b)\<rparr>)
                      = (if printable b then Inr True else Inl ValueError)))"
proof (intro conjI impI allI)
  let ?t = "last (chain w)"
  let ?w' = "w\<lparr>heap := (heap w)(?t := (heap w ?t)\<lparr>record_val := r, creator_id := c,
                        timestamp := t, nonce := n\<rparr>)\<rparr>"
  have "printable (heap ?w' ?t)"
    using assms(4-6) by (simp add: printable_def)
  then show "is_valid_exn ?w' = is_valid_exn w"
    using assms(1-3) by (intro is_valid_exn_tail) simp_all
next
  fix b
  assume "length (chain w) = 1"
  then obtain g where "chain w = [g]"
    by (cases "chain w") auto
  then show "is_valid_exn (w\<lparr>heap := (heap w)(last (chain w) := b)\<rparr>)
      = (if printable b then Inr True else Inl ValueError)"
    by (simp add: is_valid_exn_def hash_block_exn_eq)
qed

theorem is_valid_exn_ignores_tail_witness:
  "chain world_mined \<noteq> [] \<and> last (chain world_mined) \<notin> set (butlast (chain world_mined))
   \<and> last (chain world_mined) = 1 \<and> printable (heap world_mined 1)
   \<and> printable_payload (Rec \<lparr>sender = ''A'', receiver = ''B'', amount = PyStr ''99''\<rparr>)
   \<and> printable_int 7 \<and> printable_int 0
   \<and> is_valid_exn (world_mined\<lparr>heap := (heap world_mined)(1 :=
        (heap world_mined 1)\<lparr>record_val := Rec \<lparr>sender = ''A'', receiver = ''B'', amount = PyStr ''99''\<rparr>,
           creator_id := 7, timestamp := ''23:59:59'', nonce := 0\<rparr>)\<rparr>) = is_valid_exn world_mined
   \<and> is_valid_exn world_mined = Inr True
   \<and> chain world_setup \<noteq> [] \<and> last (chain world_setup) \<notin> set (butlast (chain world_setup))
   \<and> length (chain world_setup) = 1 \<and> last (chain world_setup) = 0
   \<and> printable (heap world_setup 0) \<and> printable candidate_b
   \<and> is_valid_exn (world_setup\<lparr>heap := (heap world_setup)(0 := candidate_b)\<rparr>) = Inr True"
proof -
  have a: "chain world_mined \<noteq> []" "last (chain world_mined) \<notin> set (butlast (chain world_mined))"
    and l: "last (chain world_mined) = 1"
    by (simp_all add: world_mined_def)
  have pm: "printable (heap world_mined (last (chain world_mined)))"
    using printable_candidate_b by (simp add: world_mined_def printable_def printable_int_small)
  have pg: "printable (heap world_mined 0)"
    using printable_genesis_a by (simp add: world_mined_def)
  have q: "printable_payload (Rec \<lparr>sender = ''A'', receiver = ''B'', amount = PyStr ''99''\<rparr>)"
    "printable_int 7" "printable_int 0"
    by (simp_all add: printable_int_small)
  have b: "chain world_setup \<noteq> []" "last (chain world_setup) \<notin> set (butlast (chain world_setup))"
    and k: "length (chain world_setup) = 1" "last (chain world_setup) = 0"
    by (simp_all add: world_setup_def)
  have ps: "printable (heap world_setup (last (chain world_setup)))"
    using printable_genesis_a by (simp add: world_setup_def)
  have v: "is_valid_exn world_mined = Inr True"
  proof -
    have "\<forall>x\<in>set (chain world_mined). printable (heap world_mined x)"
      using pm pg by (simp add: world_mined_def)
    from is_valid_exn_printable [OF this] session_invariant [of world_mined] show ?thesis
      using add_block_button_b setup_pychain_a session_setup [of clock_a clock_a no_objects]
      by (metis session_add session_difficulty)
  qed
  have "is_valid_exn (world_mined\<lparr>heap := (heap world_mined)(last (chain world_mined) :=
        (heap world_mined (last (chain world_mined)))\<lparr>record_val := Rec \<lparr>sender = ''A'', receiver = ''B'', amount = PyStr ''99''\<rparr>,
           creator_id := 7, timestamp := ''23:59:59'', nonce := 0\<rparr>)\<rparr>) = is_valid_exn world_mined"
    using is_valid_exn_ignores_tail [OF a pm q] by blast
  moreover have "is_valid_exn (world_setup\<lparr>heap := (heap world_setup)(last (chain world_setup) := candidate_b)\<rparr>) = Inr True"
    using is_valid_exn_ignores_tail [OF b ps q] k(1) printable_candidate_b by simp
  ultimately show ?thesis
    using a b l k q v pm ps printable_candidate_b by (simp del: One_nat_def)
qed

text \<open>
  C10. The digest input is the concatenation, with no delimiter, of the textual forms of
  \<^verbatim>\<open>record\<close>, \<^verbatim>\<open>creator_id\<close>, \<^verbatim>\<open>timestamp\<close>, \<^verbatim>\<open>prev_hash\<close> and \<^verbatim>\<open>nonce\<close>, and it is not
  injective: a block with \<^verbatim>\<open>creator_id\<close> 12 and timestamp \<^verbatim>\<open>3:44:55\<close> and a block with
  \<^verbatim>\<open>creator_id\<close> 1 and timestamp \<^verbatim>\<open>23:44:55\<close>, equal in all other fields, differ as blocks
  and have the same input bytes and the same digest.
\<close>

theorem hash_input_not_injective:
  "hash_block b = sha256_hexdigest (hash_input b)
   \<and> hash_input b = str_payload (record_val b) @ str_int (creator_id b) @ timestamp b
        @ prev_hash b @ str_int (nonce b)
   \<and> \<lparr>record_val = r, creator_id = 12, prev_hash = p, timestamp = ''3:44:55'', nonce = n\<rparr>
        \<noteq> \<lparr>record_val = r, creator_id = 1, prev_hash = p, timestamp = ''23:44:55'', nonce = n\<rparr>
   \<and> hash_input \<lparr>record_val = r, creator_id = 12, prev_hash = p, timestamp = ''3:44:55'', nonce = n\<rparr>
        = hash_input \<lparr>record_val = r, creator_id = 1, prev_hash = p, timestamp = ''23:44:55'', nonce = n\<rparr>
   \<and> hash_block \<lparr>record_val = r, creator_id = 12, prev_hash = p, timestamp = ''3:44:55'', nonce = n\<rparr>
        = hash_block \<lparr>record_val = r, creator_id = 1, prev_hash = p, timestamp = ''23:44:55'', nonce = n\<rparr>"
proof -
  have i: "hash_input \<lparr>record_val = r, creator_id = 12, prev_hash = p, timestamp = ''3:44:55'', nonce = n\<rparr>
        = hash_input \<lparr>record_val = r, creator_id = 1, prev_hash = p, timestamp = ''23:44:55'', nonce = n\<rparr>"
    by (simp add: hash_input_def str_int_def str_nat.simps digit_def)
  then show ?thesis
    by (simp add: hash_block_hash_input) (simp add: hash_input_def)
qed

end
